theory Spec2Isabelle
  imports Complex_Main "HOL-Library.Multiset"
begin

section \<open>Conventions of the embedding\<close>

text \<open>
  The pipeline is Python. Its \<open>int\<close> values are modelled by \<open>int\<close>, and its \<open>float\<close>
  values (coordinates, densities, similarity ratios) by the rational numbers they denote:
  comparisons and differences are exact, the rounding of IEEE arithmetic is not modelled.
  A literal such as \<open>0.7\<close> is the rational \<open>7/10\<close>.

  A Python \<open>str\<close> is a list of characters of an arbitrary type \<open>'c\<close> (the code points).
  What the interpreter knows about characters is not code of the pipeline and is taken as
  a parameter \<open>u\<close> of every function that uses a string method: which characters
  \<open>str.isspace\<close> and \<open>str.isalnum\<close> accept, what \<open>str.lower\<close> returns (a function on whole
  strings: it can change the length), and the character \<open>' '\<close>. Every theorem holds for all
  such tables, so for the ones of the interpreter.
\<close>

record 'c unicode =
  isspace :: "'c \<Rightarrow> bool"
  isalnum :: "'c \<Rightarrow> bool"
  lower :: "'c list \<Rightarrow> 'c list"
  blank :: 'c

text \<open>\<open>s.strip()\<close> removes the leading and the trailing whitespace characters; \<open>s.lower()\<close>.\<close>

definition str_strip :: "'c unicode \<Rightarrow> 'c list \<Rightarrow> 'c list" where
  "str_strip u s = rev (dropWhile (isspace u) (rev (dropWhile (isspace u) s)))"

definition str_lower :: "'c unicode \<Rightarrow> 'c list \<Rightarrow> 'c list" where
  "str_lower u s = lower u s"

section \<open>Data model\<close>

text \<open>\<open>TableBlock\<close> of \<open>pdf/table_extractor.py\<close>; \<open>bbox\<close> is the tuple \<open>(x0, y0, x1, y1)\<close>.\<close>

record 'c TableBlock =
  page_start :: int
  page_end :: int
  columns :: "'c list list"
  rows :: "'c list list list"
  bbox :: "rat \<times> rat \<times> rat \<times> rat"
  x_coordinates :: "rat list"

text \<open>The components \<open>bbox[0]\<close> to \<open>bbox[3]\<close> of a bounding box.\<close>

definition bbox_x0 :: "rat \<times> rat \<times> rat \<times> rat \<Rightarrow> rat" where
  "bbox_x0 b = fst b"

definition bbox_y0 :: "rat \<times> rat \<times> rat \<times> rat \<Rightarrow> rat" where
  "bbox_y0 b = fst (snd b)"

definition bbox_x1 :: "rat \<times> rat \<times> rat \<times> rat \<Rightarrow> rat" where
  "bbox_x1 b = fst (snd (snd b))"

definition bbox_y1 :: "rat \<times> rat \<times> rat \<times> rat \<Rightarrow> rat" where
  "bbox_y1 b = snd (snd (snd b))"

text \<open>
  Candidates are Python objects that \<open>TableBuffer.add\<close> mutates and that the buffer and the
  merge results share by reference. They live in a store: an address is an index into the
  list of allocated objects (every address in use is below its length), and constructing
  an object appends it.
\<close>

type_synonym ref = nat


text \<open>\<open>MergedTable\<close> and \<open>TableBuffer\<close> of \<open>tables/table_buffer.py\<close>.\<close>

record 'c MergedTable =
  original_tables :: "ref list"
  columns :: "'c list list"
  rows :: "'c list list list"
  page_range :: "int \<times> int"


text \<open>The page as \<open>page.get_text("dict")\<close> of the text provider returns it: blocks of lines of
  spans. An image block has no \<open>lines\<close> key.\<close>

record 'c Span =
  span_text :: "'c list"
  span_bbox :: "rat \<times> rat \<times> rat \<times> rat"
  span_size :: rat

record 'c Line =
  spans :: "'c Span list"
  line_bbox :: "rat \<times> rat \<times> rat \<times> rat"

record 'c Block =
  block_lines :: "'c Line list option"

section \<open>utils/geometry.py\<close>

text \<open>The inner loop of \<open>get_column_positions\<close>: is the coordinate within the tolerance of
  a column found so far?\<close>

fun column_found :: "rat \<Rightarrow> rat \<Rightarrow> rat list \<Rightarrow> bool" where
  "column_found tolerance coord [] = False"
| "column_found tolerance coord (col # columns_acc) =
     (if \<bar>coord - col\<bar> \<le> tolerance then True else column_found tolerance coord columns_acc)"

text \<open>The outer loop: a coordinate close to no column so far is appended as a new column.\<close>

fun group_coords :: "rat \<Rightarrow> rat list \<Rightarrow> rat list \<Rightarrow> rat list" where
  "group_coords tolerance columns_acc [] = columns_acc"
| "group_coords tolerance columns_acc (coord # x_coords) =
     group_coords tolerance
       (if column_found tolerance coord columns_acc then columns_acc else columns_acc @ [coord]) x_coords"

definition get_column_positions :: "(rat \<times> rat \<times> rat \<times> rat) list \<Rightarrow> rat \<Rightarrow> rat list" where
  "get_column_positions bboxes tolerance =
     (if bboxes = [] then []
      else let x_coords = sort (map bbox_x0 bboxes)
           in sort (group_coords tolerance [] x_coords))"

section \<open>pdf/page_classifier.py\<close>

text \<open>\<open>round(x_pos, -1)\<close>: the nearest multiple of 10, a tie going to the even multiple of 10
  (the one that is a multiple of 20).\<close>

definition round_half_even :: "rat \<Rightarrow> int" where
  "round_half_even x =
     (let f = \<lfloor>x\<rfloor>; d = x - of_int f
      in if d < 1 / 2 then f else if d > 1 / 2 then f + 1 else if even f then f else f + 1)"

definition round_to_tens :: "rat \<Rightarrow> rat" where
  "round_to_tens x_pos = of_int (round_half_even (x_pos / 10)) * 10"

text \<open>\<open>line_info\<close>: the line's box and, for each span, its left x-coordinate and its text.\<close>

record 'c LineInfo =
  info_bbox :: "rat \<times> rat \<times> rat \<times> rat"
  info_spans :: "(rat \<times> 'c list) list"

text \<open>The first loop of \<open>detect_table_structure\<close>: the lines of more than one span.\<close>

definition collect_lines :: "'c Block list \<Rightarrow> 'c LineInfo list" where
  "collect_lines words =
     concat (map (\<lambda>block. case block_lines block of
                 None \<Rightarrow> []
               | Some ls \<Rightarrow>
                   map (\<lambda>line. \<lparr>info_bbox = line_bbox line,
                                info_spans = map (\<lambda>span. (bbox_x0 (span_bbox span), span_text span)) (spans line)\<rparr>)
                       (filter (\<lambda>line. length (spans line) > 1) ls)) words)"

text \<open>The dictionary \<open>column_candidates\<close>, in insertion order:
  \<open>if rounded_x not in column_candidates: column_candidates[rounded_x] = 0\<close>, then
  \<open>column_candidates[rounded_x] += 1\<close>.\<close>

fun count_position :: "(rat \<times> nat) list \<Rightarrow> rat \<Rightarrow> (rat \<times> nat) list" where
  "count_position [] rounded_x = [(rounded_x, 1)]"
| "count_position ((k, c) # m) rounded_x =
     (if k = rounded_x then (k, c + 1) # m else (k, c) # count_position m rounded_x)"

definition detect_table_structure :: "'c Block list \<Rightarrow> bool" where
  "detect_table_structure words =
     (let lines = collect_lines words in
      if length lines < 3 then False
      else let column_candidates =
                 foldl (\<lambda>m line. foldl (\<lambda>m (x_pos, text). count_position m (round_to_tens x_pos))
                                      m (info_spans line)) [] lines;
               frequent_columns = length (filter (\<lambda>(k, count). count \<ge> 3) column_candidates)
           in frequent_columns \<ge> 2)"

definition determine_if_scan :: "'c unicode \<Rightarrow> int \<Rightarrow> rat \<Rightarrow> int \<Rightarrow> 'a list \<Rightarrow> 'c list \<Rightarrow> bool" where
  "determine_if_scan u char_count text_density image_count drawing_paths raw_text =
     (if char_count < 10 then True
      else if text_density < 5 / 100 \<and> image_count > 0 then True
      else let special_chars_ratio =
                 of_nat (length (filter (\<lambda>c. \<not> isalnum u c \<and> c \<noteq> blank u) raw_text))
                 / of_nat (max (length raw_text) 1)
           in if text_density < 1 / 10 \<and> special_chars_ratio > (3 / 10 :: rat) then True
              else False)"

section \<open>pdf/table_extractor.py\<close>

definition lines_align_as_table :: "'c Line \<Rightarrow> 'c Line \<Rightarrow> rat \<Rightarrow> bool" where
  "lines_align_as_table line1 line2 tolerance =
     (let spans1 = spans line1; spans2 = spans line2 in
      if \<bar>int (length spans1) - int (length spans2)\<bar> > 1 then False
      else let min_matches = min (length spans1) (length spans2);
               matches = length (filter
                 (\<lambda>i. \<bar>bbox_x0 (span_bbox (spans1 ! i)) - bbox_x0 (span_bbox (spans2 ! i))\<bar> \<le> tolerance)
                 [0 ..< min (length spans1) (length spans2)])
           in matches \<ge> min_matches div 2)"

section \<open>tables/table_merge.py\<close>

definition merge_tables_if_compatible :: "'c TableBlock \<Rightarrow> 'c TableBlock \<Rightarrow> 'c TableBlock" where
  "merge_tables_if_compatible table1 table2 =
    (let (first_table, second_table) =
           (if page_start table1 \<le> page_start table2 then (table1, table2) else (table2, table1));
         merged_rows = TableBlock.rows first_table @ TableBlock.rows second_table;
         merged_page_start = min (page_start first_table) (page_start second_table);
         merged_page_end = max (page_end first_table) (page_end second_table);
         merged_columns = (if TableBlock.columns first_table \<noteq> [] then TableBlock.columns first_table
                           else TableBlock.columns second_table);
         merged_bbox =
           (min (bbox_x0 (bbox first_table)) (bbox_x0 (bbox second_table)),
            min (bbox_y0 (bbox first_table)) (bbox_y0 (bbox second_table)),
            max (bbox_x1 (bbox first_table)) (bbox_x1 (bbox second_table)),
            max (bbox_y1 (bbox first_table)) (bbox_y1 (bbox second_table)));
         merged_x_coords = (if x_coordinates first_table \<noteq> [] then x_coordinates first_table
                            else x_coordinates second_table)
     in \<lparr>page_start = merged_page_start, page_end = merged_page_end,
         columns = merged_columns, rows = merged_rows, bbox = merged_bbox,
         x_coordinates = merged_x_coords\<rparr>)"

text \<open>The loop over \<open>zip(headers1, headers2)\<close> that counts the matching positions.\<close>

fun count_matches :: "'c unicode \<Rightarrow> 'c list list \<Rightarrow> 'c list list \<Rightarrow> nat" where
  "count_matches u (h1 # hs1) (h2 # hs2) =
     (if str_lower u (str_strip u h1) = str_lower u (str_strip u h2) then 1 else 0) + count_matches u hs1 hs2"
| "count_matches u _ _ = 0"

definition compare_headers :: "'c unicode \<Rightarrow> 'c list list \<Rightarrow> 'c list list \<Rightarrow> rat" where
  "compare_headers u headers1 headers2 =
    (if length headers1 \<noteq> length headers2 then 0
     else let matches = count_matches u headers1 headers2
          in if headers1 \<noteq> [] then of_nat matches / of_nat (length headers1) else 1)"

text \<open>The loop over \<open>zip(x_coordinates, x_coordinates)\<close>: \<open>False\<close> at the first pair further
  apart than the tolerance.\<close>

fun coords_within :: "rat \<Rightarrow> rat list \<Rightarrow> rat list \<Rightarrow> bool" where
  "coords_within tol (x1 # xs1) (x2 # xs2) =
     (if \<bar>x1 - x2\<bar> > tol then False else coords_within tol xs1 xs2)"
| "coords_within tol _ _ = True"

definition is_table_continuation :: "'c unicode \<Rightarrow> 'c TableBlock \<Rightarrow> 'c TableBlock \<Rightarrow> int \<Rightarrow> rat \<Rightarrow> bool" where
  "is_table_continuation u table1 table2 max_page_gap column_tolerance =
    (let page_gap = \<bar>page_start table2 - page_end table1\<bar> in
     if page_gap > max_page_gap then False
     else if length (TableBlock.columns table1) \<noteq> length (TableBlock.columns table2)
           \<and> \<not> (length (TableBlock.rows table1) > 0
                \<and> length (hd (TableBlock.rows table1)) = length (TableBlock.columns table2))
           \<and> \<not> (length (TableBlock.rows table2) > 0
                \<and> length (hd (TableBlock.rows table2)) = length (TableBlock.columns table1))
          then False
     else if x_coordinates table1 \<noteq> [] \<and> x_coordinates table2 \<noteq> []
           \<and> (length (x_coordinates table1) \<noteq> length (x_coordinates table2)
              \<or> \<not> coords_within column_tolerance (x_coordinates table1) (x_coordinates table2))
          then False
     else if TableBlock.columns table1 \<noteq> [] \<and> TableBlock.columns table2 \<noteq> []
           \<and> compare_headers u (TableBlock.columns table1) (TableBlock.columns table2) < 7 / 10
          then False
     else True)"

section \<open>tables/table_buffer.py\<close>

text \<open>\<open>TableBuffer._compare_headers\<close>, the method's own copy of the comparison.\<close>

definition TableBuffer_compare_headers :: "'c unicode \<Rightarrow> 'c list list \<Rightarrow> 'c list list \<Rightarrow> rat" where
  "TableBuffer_compare_headers u headers1 headers2 =
    (if length headers1 \<noteq> length headers2 then 0
     else let matches = count_matches u headers1 headers2
          in if headers1 \<noteq> [] then of_nat matches / of_nat (length headers1) else 1)"

definition TableBuffer_can_merge_tables :: "'c unicode \<Rightarrow> 'c TableBlock \<Rightarrow> 'c TableBlock \<Rightarrow> bool" where
  "TableBuffer_can_merge_tables u table1 table2 =
    (if \<bar>page_start table2 - page_end table1\<bar> > 1 then False
     else if length (TableBlock.columns table1) \<noteq> length (TableBlock.columns table2)
           \<and> \<not> (length (TableBlock.rows table1) > 0
                \<and> length (hd (TableBlock.rows table1)) = length (TableBlock.columns table2))
           \<and> \<not> (length (TableBlock.rows table2) > 0
                \<and> length (hd (TableBlock.rows table2)) = length (TableBlock.columns table1))
          then False
     else if x_coordinates table1 \<noteq> [] \<and> x_coordinates table2 \<noteq> []
           \<and> (length (x_coordinates table1) \<noteq> length (x_coordinates table2)
              \<or> \<not> coords_within 10 (x_coordinates table1) (x_coordinates table2))
          then False
     else if TableBlock.columns table1 \<noteq> [] \<and> TableBlock.columns table2 \<noteq> []
           \<and> TableBuffer_compare_headers u (TableBlock.columns table1) (TableBlock.columns table2) < 7 / 10
          then False
     else True)"









text \<open>\<open>normalize_table\<close>: the loop that keeps the rows with a cell that is not blank, each cell
  stripped.\<close>

fun clean_rows :: "'c unicode \<Rightarrow> 'c list list list \<Rightarrow> 'c list list list" where
  "clean_rows u [] = []"
| "clean_rows u (row # rest) =
     (if list_ex (\<lambda>cell. str_strip u cell \<noteq> []) row
      then map (str_strip u) row # clean_rows u rest else clean_rows u rest)"

definition normalize_table :: "'c unicode \<Rightarrow> 'c MergedTable \<Rightarrow> 'c MergedTable" where
  "normalize_table u table =
     (let cleaned_rows = clean_rows u (MergedTable.rows table)
      in \<lparr>original_tables = original_tables table,
          columns = MergedTable.columns table,
          rows = cleaned_rows,
          page_range = page_range table\<rparr>)"

section \<open>The merge test in the words of the specification\<close>

text \<open>
  Two readings of "equal up to case and whitespace". The first ignores case and the
  whitespace around the header; the second ignores case and all whitespace of the header.
\<close>

definition trimmed_lower :: "'c unicode \<Rightarrow> 'c list \<Rightarrow> 'c list" where
  "trimmed_lower u h = str_lower u (str_strip u h)"

definition squeezed_lower :: "'c unicode \<Rightarrow> 'c list \<Rightarrow> 'c list" where
  "squeezed_lower u h = str_lower u (filter (\<lambda>c. \<not> isspace u c) h)"

text \<open>
  The similarity of two header lists under a normalisation of headers: the rate of positions
  whose normalised headers are equal; lists of unequal length have similarity 0.
\<close>

definition header_similarity :: "('c list \<Rightarrow> 'c list) \<Rightarrow> 'c list list \<Rightarrow> 'c list list \<Rightarrow> rat" where
  "header_similarity nf hs1 hs2 =
    (if length hs1 \<noteq> length hs2 then 0
     else of_nat (card {i. i < length hs1 \<and> nf (hs1 ! i) = nf (hs2 ! i)})
          / of_nat (length hs1))"

text \<open>The four conditions of the merge test, the header comparison under a normalisation.\<close>

definition can_merge :: "('c list \<Rightarrow> 'c list) \<Rightarrow> 'c TableBlock \<Rightarrow> 'c TableBlock \<Rightarrow> bool" where
  "can_merge nf t1 t2 \<longleftrightarrow>
     \<bar>page_start t2 - page_end t1\<bar> \<le> 1
   \<and> (length (TableBlock.columns t1) = length (TableBlock.columns t2)
      \<or> (TableBlock.rows t1 \<noteq> [] \<and> length (hd (TableBlock.rows t1)) = length (TableBlock.columns t2))
      \<or> (TableBlock.rows t2 \<noteq> [] \<and> length (hd (TableBlock.rows t2)) = length (TableBlock.columns t1)))
   \<and> (x_coordinates t1 \<noteq> [] \<and> x_coordinates t2 \<noteq> [] \<longrightarrow>
        length (x_coordinates t1) = length (x_coordinates t2)
      \<and> (\<forall>i < length (x_coordinates t1). \<bar>x_coordinates t1 ! i - x_coordinates t2 ! i\<bar> \<le> 10))
   \<and> (TableBlock.columns t1 \<noteq> [] \<and> TableBlock.columns t2 \<noteq> [] \<longrightarrow>
        7 / 10 \<le> header_similarity nf (TableBlock.columns t1) (TableBlock.columns t2))"

section \<open>The bins of the classifier in the words of the specification\<close>

text \<open>The bins of all runs of the lines of more than one run, one entry per run.\<close>

definition run_bins :: "'c Block list \<Rightarrow> rat list" where
  "run_bins words =
     concat (map (\<lambda>line. map (\<lambda>(x_pos, text). round_to_tens x_pos) (info_spans line))
                 (collect_lines words))"

text \<open>The number of lines of more than one run that have a run in the bin.\<close>

definition lines_in_bin :: "'c Block list \<Rightarrow> rat \<Rightarrow> nat" where
  "lines_in_bin words b =
     length (filter (\<lambda>line. b \<in> set (map (\<lambda>(x_pos, text). round_to_tens x_pos) (info_spans line)))
                    (collect_lines words))"

text \<open>The count that \<open>column_candidates\<close> holds for a bin, 0 when the bin is no key.\<close>

definition bin_count :: "(rat \<times> nat) list \<Rightarrow> rat \<Rightarrow> nat" where
  "bin_count m k = (case map_of m k of None \<Rightarrow> 0 | Some c \<Rightarrow> c)"

section \<open>The buffer in the words of the specification\<close>




section \<open>Example inputs\<close>

text \<open>
  The example inputs are ASCII text. On the code points 0 to 127 the tables of the
  interpreter are these: whitespace is 9 to 13 and 28 to 32, the alphanumeric characters are
  the digits and the letters, and \<open>lower\<close> maps \<open>A\<close> to \<open>Z\<close> to \<open>a\<close> to \<open>z\<close>.
\<close>

definition ascii_isspace :: "char \<Rightarrow> bool" where
  "ascii_isspace c = (let n = (of_char c :: nat) in (9 \<le> n \<and> n \<le> 13) \<or> (28 \<le> n \<and> n \<le> 32))"

definition ascii_isalnum :: "char \<Rightarrow> bool" where
  "ascii_isalnum c = (let n = (of_char c :: nat) in
      (48 \<le> n \<and> n \<le> 57) \<or> (65 \<le> n \<and> n \<le> 90) \<or> (97 \<le> n \<and> n \<le> 122))"

definition ascii_lower_char :: "char \<Rightarrow> char" where
  "ascii_lower_char c = (let n = (of_char c :: nat) in
      if 65 \<le> n \<and> n \<le> 90 then char_of (n + 32) else c)"

definition ascii :: "char unicode" where
  "ascii = \<lparr>isspace = ascii_isspace, isalnum = ascii_isalnum,
            lower = map ascii_lower_char, blank = CHR '' ''\<rparr>"

text \<open>Two candidates on pages 2 and 3 whose ten headers agree, up to case and surrounding
  whitespace, at exactly seven positions.\<close>

definition ex_page2 :: "char TableBlock" where
  "ex_page2 = \<lparr>page_start = 2, page_end = 2,
     columns = [''Id'', ''Name '', '' City'', ''ZIP'', ''Phone'', ''Mail'', ''Age'', ''Role'', ''Team'', ''Note''],
     rows = [[''1'', ''Ann'', ''Ufa'', ''450000'', ''1'', ''a'', ''30'', ''dev'', ''x'', ''-'']],
     bbox = (10, 700, 500, 780),
     x_coordinates = [10, 60, 110, 160, 210, 260, 310, 360, 410, 460]\<rparr>"

definition ex_page3 :: "char TableBlock" where
  "ex_page3 = \<lparr>page_start = 3, page_end = 3,
     columns = [''ID'', ''name'', ''CITY '', ''zip'', ''phone'', ''MAIL'', ''age'', ''Position'', ''Group'', ''Remark''],
     rows = [[''2'', ''Bob'', ''Omsk'', ''644000'', ''2'', ''b'', ''41'', ''ops'', ''y'', ''-'']],
     bbox = (12, 40, 505, 90),
     x_coordinates = [12, 58, 111, 150, 210, 270, 305, 360, 412, 461]\<rparr>"

text \<open>Lines of a page: two rows of three runs of which only the first pair is aligned, and
  two lines of a single run each, 100 units apart.\<close>

definition mk_span :: "string \<Rightarrow> rat \<Rightarrow> char Span" where
  "mk_span t x = \<lparr>span_text = t, span_bbox = (x, 100, x + 30, 112), span_size = 11\<rparr>"

definition ex_row_a :: "char Line" where
  "ex_row_a = \<lparr>spans = [mk_span ''Name'' 10, mk_span ''City'' 100, mk_span ''Age'' 200],
               line_bbox = (10, 100, 230, 112)\<rparr>"

definition ex_row_b :: "char Line" where
  "ex_row_b = \<lparr>spans = [mk_span ''See'' 10, mk_span ''also'' 150, mk_span ''below'' 260],
               line_bbox = (10, 120, 290, 132)\<rparr>"

definition ex_par_a :: "char Line" where
  "ex_par_a = \<lparr>spans = [mk_span ''Introduction'' 0], line_bbox = (0, 100, 30, 112)\<rparr>"

definition ex_par_b :: "char Line" where
  "ex_par_b = \<lparr>spans = [mk_span ''indented'' 100], line_bbox = (100, 120, 130, 132)\<rparr>"

text \<open>A merged table whose first header carries surrounding whitespace and whose second row
  is blank.\<close>

definition ex_merged :: "char MergedTable" where
  "ex_merged = \<lparr>original_tables = [0],
                 columns = ['' Name '', ''City''],
                 rows = [['' Ann'', ''Ufa ''], [''  '', '''']],
                 page_range = (1, 1)\<rparr>"

text \<open>A page of three lines: three runs within one 10-unit bin, three runs within another,
  and two runs far apart.\<close>

definition ex_page :: "char Block list" where
  "ex_page =
     [\<lparr>block_lines = Some
         [\<lparr>spans = [mk_span ''a'' 71, mk_span ''b'' 73, mk_span ''c'' 74], line_bbox = (71, 100, 104, 112)\<rparr>,
          \<lparr>spans = [mk_span ''d'' 201, mk_span ''e'' 203, mk_span ''f'' 204], line_bbox = (201, 120, 234, 132)\<rparr>,
          \<lparr>spans = [mk_span ''g'' 300, mk_span ''h'' 400], line_bbox = (300, 140, 430, 152)\<rparr>]\<rparr>]"






text \<open>Two candidates on pages 2 and 3 whose single headers differ in the whitespace between
  the two words only.\<close>

definition ex_price2 :: "char TableBlock" where
  "ex_price2 = \<lparr>page_start = 2, page_end = 2, columns = [''Unit Price''],
     rows = [[''12'']], bbox = (10, 700, 100, 780), x_coordinates = [10]\<rparr>"

definition ex_price3 :: "char TableBlock" where
  "ex_price3 = \<lparr>page_start = 3, page_end = 3, columns = [''Unit  Price''],
     rows = [[''15'']], bbox = (10, 40, 100, 90), x_coordinates = [10]\<rparr>"


section \<open>Properties of the merge test and of the pairwise merge\<close>

lemma count_matches_card:
  "length hs1 = length hs2 \<Longrightarrow>
   count_matches u hs1 hs2 =
     card {i. i < length hs1 \<and> str_lower u (str_strip u (hs1 ! i)) = str_lower u (str_strip u (hs2 ! i))}"
proof (induction hs1 hs2 rule: list_induct2)
  case Nil
  then show ?case by simp
next
  case (Cons h1 hs1 h2 hs2)
  let ?P = "\<lambda>a b. str_lower u (str_strip u a) = str_lower u (str_strip u b)"
  let ?S = "{i. i < length hs1 \<and> ?P (hs1 ! i) (hs2 ! i)}"
  let ?T = "{i. i < length (h1 # hs1) \<and> ?P ((h1 # hs1) ! i) ((h2 # hs2) ! i)}"
  have fin: "finite ?S" by simp
  have T: "?T = (if ?P h1 h2 then {0} else {}) \<union> Suc ` ?S"
  proof (rule set_eqI)
    fix i show "i \<in> ?T \<longleftrightarrow> i \<in> (if ?P h1 h2 then {0} else {}) \<union> Suc ` ?S"
      by (cases i) auto
  qed
  have "card ?T = (if ?P h1 h2 then 1 else 0) + card ?S"
  proof (cases "?P h1 h2")
    case True
    have "card ({0} \<union> Suc ` ?S) = card {0::nat} + card (Suc ` ?S)"
      by (rule card_Un_disjoint) (use fin in auto)
    then show ?thesis using True T by (simp add: card_image)
  next
    case False
    then show ?thesis using T by (simp add: card_image)
  qed
  then show ?case using Cons.IH by simp
qed

lemma coords_within_nth:
  "length xs1 = length xs2 \<Longrightarrow>
   coords_within tol xs1 xs2 \<longleftrightarrow> (\<forall>i < length xs1. \<bar>xs1 ! i - xs2 ! i\<bar> \<le> tol)"
proof (induction xs1 xs2 rule: list_induct2)
  case Nil
  then show ?case by simp
next
  case (Cons x1 xs1 x2 xs2)
  have "(\<forall>i < Suc (length xs1). \<bar>(x1 # xs1) ! i - (x2 # xs2) ! i\<bar> \<le> tol)
        \<longleftrightarrow> \<bar>x1 - x2\<bar> \<le> tol \<and> (\<forall>i < length xs1. \<bar>xs1 ! i - xs2 ! i\<bar> \<le> tol)"
    by (auto simp: less_Suc_eq_0_disj)
  then show ?case using Cons.IH by (auto simp: not_less)
qed

lemma compare_headers_threshold:
  assumes "hs1 \<noteq> []"
  shows "\<not> compare_headers u hs1 hs2 < 7 / 10 \<longleftrightarrow>
         length hs1 = length hs2 \<and> 7 * length hs1 \<le> 10 * count_matches u hs1 hs2"
proof (cases "length hs1 = length hs2")
  case False
  then show ?thesis by (simp add: compare_headers_def)
next
  case True
  have pos: "(0::rat) < of_nat (length hs1)" using assms by simp
  have "\<not> (of_nat (count_matches u hs1 hs2) / of_nat (length hs1) < (7::rat) / 10)
        \<longleftrightarrow> (7::rat) * of_nat (length hs1) \<le> 10 * of_nat (count_matches u hs1 hs2)"
    using pos by (simp add: not_less field_simps)
  also have "\<dots> \<longleftrightarrow> 7 * length hs1 \<le> 10 * count_matches u hs1 hs2"
  proof -
    have "(7::rat) * of_nat (length hs1) = of_nat (7 * length hs1)"
      and "(10::rat) * of_nat (count_matches u hs1 hs2) = of_nat (10 * count_matches u hs1 hs2)"
      by simp_all
    then show ?thesis by (simp only: of_nat_le_iff)
  qed
  finally show ?thesis using True assms by (simp add: compare_headers_def Let_def)
qed

lemma TableBuffer_compare_headers_eq:
  "TableBuffer_compare_headers u hs1 hs2 = compare_headers u hs1 hs2"
  by (simp add: TableBuffer_compare_headers_def compare_headers_def)

lemma compare_headers_similarity:
  "hs1 \<noteq> [] \<Longrightarrow> compare_headers u hs1 hs2 = header_similarity (trimmed_lower u) hs1 hs2"
  by (simp add: compare_headers_def header_similarity_def trimmed_lower_def count_matches_card)

lemma coords_test:
  "(xs1 \<noteq> [] \<and> xs2 \<noteq> [] \<and> (length xs1 \<noteq> length xs2 \<or> \<not> coords_within tol xs1 xs2))
   \<longleftrightarrow> \<not> (xs1 \<noteq> [] \<and> xs2 \<noteq> [] \<longrightarrow>
          length xs1 = length xs2 \<and> (\<forall>i < length xs1. \<bar>xs1 ! i - xs2 ! i\<bar> \<le> tol))"
proof (cases "length xs1 = length xs2")
  case True
  then show ?thesis by (simp add: coords_within_nth)
next
  case False
  then show ?thesis by simp
qed

lemma headers_test:
  "(hs1 \<noteq> [] \<and> hs2 \<noteq> [] \<and> compare_headers u hs1 hs2 < 7 / 10)
   \<longleftrightarrow> \<not> (hs1 \<noteq> [] \<and> hs2 \<noteq> [] \<longrightarrow> 7 / 10 \<le> header_similarity (trimmed_lower u) hs1 hs2)"
  by (auto simp: compare_headers_similarity not_le)

lemma merge_test_chain:
  "(if A then False else if B then False else if C then False else if D then False else True)
   \<longleftrightarrow> \<not> A \<and> \<not> B \<and> \<not> C \<and> \<not> D"
  by simp

lemma column_count_test:
  "\<not> (length c1 \<noteq> length c2 \<and> \<not> (length r1 > 0 \<and> length (hd r1) = length c2)
        \<and> \<not> (length r2 > 0 \<and> length (hd r2) = length c1))
   \<longleftrightarrow> length c1 = length c2 \<or> (r1 \<noteq> [] \<and> length (hd r1) = length c2)
        \<or> (r2 \<noteq> [] \<and> length (hd r2) = length c1)"
  by auto

lemma can_merge_tables_can_merge:
  "TableBuffer_can_merge_tables u t1 t2 \<longleftrightarrow> can_merge (trimmed_lower u) t1 t2"
proof -
  have gap: "\<not> \<bar>page_start t2 - page_end t1\<bar> > 1 \<longleftrightarrow> \<bar>page_start t2 - page_end t1\<bar> \<le> 1"
    by (simp add: not_less)
  show ?thesis
    unfolding TableBuffer_can_merge_tables_def can_merge_def TableBuffer_compare_headers_eq
      merge_test_chain gap column_count_test coords_test headers_test not_not
    by (rule refl)
qed

lemma is_table_continuation_can_merge:
  "is_table_continuation u t1 t2 1 10 \<longleftrightarrow> can_merge (trimmed_lower u) t1 t2"
proof -
  have gap: "\<not> \<bar>page_start t2 - page_end t1\<bar> > 1 \<longleftrightarrow> \<bar>page_start t2 - page_end t1\<bar> \<le> 1"
    by (simp add: not_less)
  show ?thesis
    unfolding is_table_continuation_def can_merge_def Let_def
      merge_test_chain gap column_count_test coords_test headers_test not_not
    by (rule refl)
qed

section \<open>Properties of the column clustering\<close>

lemma column_found_iff:
  "column_found tol coord cols \<longleftrightarrow> (\<exists>c \<in> set cols. \<bar>coord - c\<bar> \<le> tol)"
  by (induction cols) auto

lemma set_group_coords: "set (group_coords tol cols xs) \<subseteq> set cols \<union> set xs"
proof (induction xs arbitrary: cols)
  case Nil
  then show ?case by simp
next
  case (Cons coord xs)
  show ?case
    using Cons.IH [of "if column_found tol coord cols then cols else cols @ [coord]"]
    by (auto split: if_splits)
qed

lemma group_coords_spaced:
  assumes "sorted xs" "\<forall>c \<in> set cols. \<forall>x \<in> set xs. c \<le> x"
    and "sorted_wrt (\<lambda>a b. a + tol < b) cols"
  shows "sorted_wrt (\<lambda>a b. a + tol < b) (group_coords tol cols xs)"
  using assms
proof (induction xs arbitrary: cols)
  case Nil
  then show ?case by simp
next
  case (Cons coord xs)
  let ?cols = "if column_found tol coord cols then cols else cols @ [coord]"
  have s: "sorted xs" and le: "\<forall>x \<in> set xs. coord \<le> x"
    using Cons.prems(1) by simp_all
  have below: "\<forall>c \<in> set ?cols. \<forall>x \<in> set xs. c \<le> x"
    using Cons.prems(2) le by auto
  have spaced: "sorted_wrt (\<lambda>a b. a + tol < b) ?cols"
  proof (cases "column_found tol coord cols")
    case True
    then show ?thesis using Cons.prems(3) by simp
  next
    case False
    have "c + tol < coord" if "c \<in> set cols" for c
    proof -
      have "c \<le> coord" using Cons.prems(2) that by simp
      moreover have "\<not> \<bar>coord - c\<bar> \<le> tol" using False that by (auto simp: column_found_iff)
      ultimately show ?thesis by linarith
    qed
    then show ?thesis using False Cons.prems(3) by (simp add: sorted_wrt_append)
  qed
  show ?case using Cons.IH [OF s below spaced] by simp
qed

lemma spaced_strict:
  "0 \<le> tol \<Longrightarrow> sorted_wrt (\<lambda>a b. a + tol < b) xs \<Longrightarrow> sorted_wrt (<) (xs :: rat list)"
  by (erule sorted_wrt_mono_rel [rotated]) auto

lemma get_column_positions_unsorted:
  assumes "0 \<le> tol"
  shows "get_column_positions bs tol = group_coords tol [] (sort (map bbox_x0 bs))"
proof (cases "bs = []")
  case True
  then show ?thesis by (simp add: get_column_positions_def)
next
  case False
  have "sorted_wrt (\<lambda>a b. a + tol < b) (group_coords tol [] (sort (map bbox_x0 bs)))"
    by (rule group_coords_spaced) simp_all
  then have "sorted (group_coords tol [] (sort (map bbox_x0 bs)))"
    using assms spaced_strict strict_sorted_imp_sorted by blast
  then show ?thesis using False by (simp add: get_column_positions_def sorted_sort_id)
qed

lemma get_column_positions_perm:
  "mset bs = mset bs' \<Longrightarrow> get_column_positions bs tol = get_column_positions bs' tol"
proof -
  assume m: "mset bs = mset bs'"
  then have "mset (map bbox_x0 bs) = mset (map bbox_x0 bs')" by simp
  then have "sort (map bbox_x0 bs) = sort (map bbox_x0 bs')"
    by (intro properties_for_sort) simp_all
  moreover have "bs = [] \<longleftrightarrow> bs' = []" using m by auto
  ultimately show ?thesis by (simp add: get_column_positions_def)
qed

section \<open>Properties of the page classifier\<close>

lemma special_ratio_gt:
  assumes "c \<le> n"
  shows "(3 / 10 :: rat) < of_nat c / of_nat (max n 1) \<longleftrightarrow> 3 * n < 10 * c"
proof (cases "n = 0")
  case True
  with assms show ?thesis by simp
next
  case False
  then have m: "max n 1 = n" by simp
  have pos: "(0::rat) < of_nat n" using False by simp
  have "(3 / 10 :: rat) < of_nat c / of_nat n \<longleftrightarrow> (3::rat) * of_nat n < 10 * of_nat c"
    using pos by (simp add: field_simps)
  also have "\<dots> \<longleftrightarrow> (of_nat (3 * n) :: rat) < of_nat (10 * c)"
    by simp
  also have "\<dots> \<longleftrightarrow> 3 * n < 10 * c"
    by (simp only: of_nat_less_iff)
  finally show ?thesis using m by simp
qed

lemma count_position_count:
  "bin_count (count_position m k') k = bin_count m k + (if k = k' then 1 else 0)"
  by (induction m k' rule: count_position.induct) (auto simp: bin_count_def)

lemma count_position_keys:
  "map fst (count_position m k) = (if k \<in> fst ` set m then map fst m else map fst m @ [k])"
  by (induction m k rule: count_position.induct) auto

lemma count_position_distinct:
  "distinct (map fst m) \<Longrightarrow> distinct (map fst (count_position m k))"
  by (simp add: count_position_keys)

lemma foldl_count_position_count:
  "bin_count (foldl count_position m ks) k = bin_count m k + count_list ks k"
  by (induction ks arbitrary: m) (auto simp: count_position_count)

lemma foldl_count_position_distinct:
  "distinct (map fst m) \<Longrightarrow> distinct (map fst (foldl count_position m ks))"
  by (induction ks arbitrary: m) (auto simp: count_position_distinct)

lemma foldl_spans:
  "foldl (\<lambda>m (x_pos, text). count_position m (round_to_tens x_pos)) m sp
   = foldl count_position m (map (\<lambda>(x_pos, text). round_to_tens x_pos) sp)"
  by (induction sp arbitrary: m) auto

lemma foldl_lines:
  "foldl (\<lambda>m line. foldl (\<lambda>m (x_pos, text). count_position m (round_to_tens x_pos)) m (info_spans line))
         m ls
   = foldl count_position m
       (concat (map (\<lambda>line. map (\<lambda>(x_pos, text). round_to_tens x_pos) (info_spans line)) ls))"
  by (induction ls arbitrary: m) (simp_all add: foldl_spans)

lemma two_distinct_elements:
  assumes "distinct xs"
  shows "2 \<le> length xs \<longleftrightarrow> (\<exists>a b. a \<noteq> b \<and> a \<in> set xs \<and> b \<in> set xs)"
proof
  assume "2 \<le> length xs"
  then obtain a b rest where "xs = a # b # rest"
    by (cases xs; cases "tl xs") auto
  with assms show "\<exists>a b. a \<noteq> b \<and> a \<in> set xs \<and> b \<in> set xs" by auto
next
  assume "\<exists>a b. a \<noteq> b \<and> a \<in> set xs \<and> b \<in> set xs"
  then obtain a b where ab: "a \<noteq> b" "a \<in> set xs" "b \<in> set xs" by blast
  then have "card {a, b} \<le> card (set xs)" by (intro card_mono) auto
  moreover have "card {a, b} = 2" using ab by simp
  moreover have "card (set xs) \<le> length xs" by (rule card_length)
  ultimately show "2 \<le> length xs" by linarith
qed

lemma bin_count_ge:
  assumes "distinct (map fst m)" "0 < n"
  shows "n \<le> bin_count m k \<longleftrightarrow> (\<exists>c. (k, c) \<in> set m \<and> n \<le> c)"
proof
  assume "n \<le> bin_count m k"
  with assms(2) obtain c where "map_of m k = Some c" "n \<le> c"
    by (auto simp: bin_count_def split: option.splits)
  then show "\<exists>c. (k, c) \<in> set m \<and> n \<le> c" by (auto dest: map_of_SomeD)
next
  assume "\<exists>c. (k, c) \<in> set m \<and> n \<le> c"
  then obtain c where "(k, c) \<in> set m" "n \<le> c" by blast
  with assms(1) show "n \<le> bin_count m k" by (simp add: bin_count_def)
qed

lemma frequent_columns_iff:
  assumes "distinct (map fst m)"
  shows "2 \<le> length (filter (\<lambda>(k, count). count \<ge> 3) m)
         \<longleftrightarrow> (\<exists>k1 k2. k1 \<noteq> k2 \<and> 3 \<le> bin_count m k1 \<and> 3 \<le> bin_count m k2)"
proof -
  let ?F = "filter (\<lambda>(k, count). count \<ge> 3) m"
  have dF: "distinct (map fst ?F)" using assms by (rule distinct_map_filter)
  then have "distinct ?F" by (simp add: distinct_map)
  then have "2 \<le> length ?F \<longleftrightarrow> (\<exists>a b. a \<noteq> b \<and> a \<in> set ?F \<and> b \<in> set ?F)"
    by (rule two_distinct_elements)
  also have "\<dots> \<longleftrightarrow> (\<exists>k1 k2. k1 \<noteq> k2 \<and> 3 \<le> bin_count m k1 \<and> 3 \<le> bin_count m k2)"
  proof
    assume "\<exists>a b. a \<noteq> b \<and> a \<in> set ?F \<and> b \<in> set ?F"
    then obtain a b where ab: "a \<noteq> b" "a \<in> set ?F" "b \<in> set ?F" by blast
    have "fst a \<noteq> fst b"
    proof
      assume "fst a = fst b"
      with dF ab(2,3) have "a = b" by (meson distinct_map inj_onD)
      with ab(1) show False by simp
    qed
    moreover have "3 \<le> bin_count m (fst a)" "3 \<le> bin_count m (fst b)"
      using ab(2,3) assms by (auto simp: bin_count_ge)
    ultimately show "\<exists>k1 k2. k1 \<noteq> k2 \<and> 3 \<le> bin_count m k1 \<and> 3 \<le> bin_count m k2" by blast
  next
    assume "\<exists>k1 k2. k1 \<noteq> k2 \<and> 3 \<le> bin_count m k1 \<and> 3 \<le> bin_count m k2"
    then obtain k1 k2 where k: "k1 \<noteq> k2" "3 \<le> bin_count m k1" "3 \<le> bin_count m k2" by blast
    then obtain c1 c2 where "(k1, c1) \<in> set m" "3 \<le> c1" "(k2, c2) \<in> set m" "3 \<le> c2"
      using assms by (auto simp: bin_count_ge)
    then have "(k1, c1) \<in> set ?F" "(k2, c2) \<in> set ?F" by auto
    with k(1) show "\<exists>a b. a \<noteq> b \<and> a \<in> set ?F \<and> b \<in> set ?F" by blast
  qed
  finally show ?thesis .
qed

lemma detect_table_structure_run_bins:
  "detect_table_structure words \<longleftrightarrow>
     3 \<le> length (collect_lines words)
   \<and> (\<exists>b1 b2. b1 \<noteq> b2 \<and> 3 \<le> count_list (run_bins words) b1 \<and> 3 \<le> count_list (run_bins words) b2)"
proof -
  let ?m = "foldl count_position [] (run_bins words)"
  have d: "distinct (map fst ?m)" by (rule foldl_count_position_distinct) simp
  have c: "bin_count ?m k = count_list (run_bins words) k" for k
    using foldl_count_position_count [of "[]" "run_bins words" k] by (simp add: bin_count_def)
  show ?thesis
    unfolding detect_table_structure_def Let_def foldl_lines run_bins_def [symmetric]
    using frequent_columns_iff [OF d] by (simp add: c not_less)
qed

lemma ex_page_lines:
  "map (\<lambda>line. map (\<lambda>(x_pos, text). round_to_tens x_pos) (info_spans line)) (collect_lines ex_page)
   = [[70, 70, 70], [200, 200, 200], [300, 400]]"
  by code_simp

section \<open>Properties of the buffer\<close>





























lemma header_similarity_one:
  "header_similarity nf [a] [b] = (if nf a = nf b then 1 else 0)"
proof -
  have "{i. i < Suc 0 \<and> nf ([a] ! i) = nf ([b] ! i)} = (if nf a = nf b then {0} else {})"
    by auto
  then show ?thesis by (simp add: header_similarity_def)
qed

section \<open>Properties of the table detector and the normalizer\<close>

text \<open>With an even number of matched positions the detector accepts exactly at one half or
  more; the rounding down of \<open>min_matches // 2\<close> shows with an odd number only.\<close>

lemma lines_align_as_table_even:
  assumes "even (min (length (spans l1)) (length (spans l2)))"
  shows "lines_align_as_table l1 l2 tol \<longleftrightarrow>
           \<bar>int (length (spans l1)) - int (length (spans l2))\<bar> \<le> 1
         \<and> min (length (spans l1)) (length (spans l2))
             \<le> 2 * length (filter
                 (\<lambda>i. \<bar>bbox_x0 (span_bbox (spans l1 ! i)) - bbox_x0 (span_bbox (spans l2 ! i))\<bar> \<le> tol)
                 [0 ..< min (length (spans l1)) (length (spans l2))])"
proof -
  have "n div 2 \<le> m \<longleftrightarrow> n \<le> 2 * m" if "even n" for n m :: nat
    using that by (auto elim!: evenE)
  from this [OF assms] show ?thesis
    unfolding lines_align_as_table_def Let_def by (auto simp: not_less)
qed

text \<open>What \<open>normalize_table\<close> does: a stripped string neither starts nor ends with
  whitespace, the rows kept are those with a cell that is not blank, and everything but
  the rows is passed on.\<close>

lemma str_strip_prefix:
  "\<exists>w. dropWhile (isspace u) s = str_strip u s @ w"
proof -
  let ?t = "dropWhile (isspace u) s"
  have "rev ?t = takeWhile (isspace u) (rev ?t) @ dropWhile (isspace u) (rev ?t)" by simp
  then have "rev (rev ?t) = rev (takeWhile (isspace u) (rev ?t) @ dropWhile (isspace u) (rev ?t))"
    by (rule arg_cong)
  then have "?t = rev (dropWhile (isspace u) (rev ?t)) @ rev (takeWhile (isspace u) (rev ?t))"
    by (simp only: rev_rev_ident rev_append)
  then show ?thesis unfolding str_strip_def by blast
qed

lemma str_strip_ends:
  assumes "str_strip u s \<noteq> []"
  shows "\<not> isspace u (hd (str_strip u s)) \<and> \<not> isspace u (last (str_strip u s))"
proof
  obtain w where w: "dropWhile (isspace u) s = str_strip u s @ w" using str_strip_prefix by blast
  with assms have "hd (dropWhile (isspace u) s) = hd (str_strip u s)" by simp
  moreover have "dropWhile (isspace u) s \<noteq> []" using w assms by simp
  ultimately show "\<not> isspace u (hd (str_strip u s))" using hd_dropWhile by metis
next
  let ?d = "dropWhile (isspace u) (rev (dropWhile (isspace u) s))"
  have ne: "?d \<noteq> []" using assms by (simp add: str_strip_def)
  then have "\<not> isspace u (hd ?d)" by (rule hd_dropWhile)
  moreover have "last (str_strip u s) = hd ?d" using ne by (simp add: str_strip_def last_rev)
  ultimately show "\<not> isspace u (last (str_strip u s))" by simp
qed

lemma clean_rows_filter:
  "clean_rows u rs = map (map (str_strip u)) (filter (\<lambda>row. \<exists>cell \<in> set row. str_strip u cell \<noteq> []) rs)"
  by (induction rs) (simp_all add: list_ex_iff)

lemma normalize_table_frame:
  "original_tables (normalize_table u t) = original_tables t
   \<and> page_range (normalize_table u t) = page_range t
   \<and> MergedTable.columns (normalize_table u t) = MergedTable.columns t
   \<and> MergedTable.rows (normalize_table u t)
      = map (map (str_strip u))
          (filter (\<lambda>row. \<exists>cell \<in> set row. str_strip u cell \<noteq> []) (MergedTable.rows t))"
  by (simp add: normalize_table_def clean_rows_filter)


section \<open>Claims about the merge test and the pairwise merge\<close>

text \<open>
  C1, as the code has it. The merge test, in both of its copies
  (\<open>TableBuffer._can_merge_tables\<close> and \<open>is_table_continuation\<close> with its default page
  gap 1 and tolerance 10), returns true exactly when: the absolute page gap is at most 1;
  the column counts are equal, or the first data row of one table is as long as the column
  list of the other; if both tables have x-coordinates, these are equally many and pairwise
  within 10 units; and if both have headers, the rate of positions whose headers are equal
  up to case and up to the whitespace around them is at least 0.7, lists of unequal length
  having similarity 0. Whitespace inside a header counts. A similarity of exactly 0.7
  passes.
\<close>

theorem merge_test_iff:
  "(TableBuffer_can_merge_tables u t1 t2 \<longleftrightarrow> can_merge (trimmed_lower u) t1 t2)
   \<and> (is_table_continuation u t1 t2 1 10 \<longleftrightarrow> can_merge (trimmed_lower u) t1 t2)
   \<and> (TableBlock.columns t1 \<noteq> []
        \<and> header_similarity (trimmed_lower u) (TableBlock.columns t1) (TableBlock.columns t2) = 7 / 10 \<longrightarrow>
        \<not> TableBuffer_compare_headers u (TableBlock.columns t1) (TableBlock.columns t2) < 7 / 10
        \<and> \<not> compare_headers u (TableBlock.columns t1) (TableBlock.columns t2) < 7 / 10)"
  by (simp add: can_merge_tables_can_merge is_table_continuation_can_merge
      TableBuffer_compare_headers_eq compare_headers_similarity)

theorem merge_test_iff_witness:
  "TableBuffer_can_merge_tables ascii ex_page2 ex_page3
   \<and> can_merge (trimmed_lower ascii) ex_page2 ex_page3
   \<and> header_similarity (trimmed_lower ascii) (TableBlock.columns ex_page2) (TableBlock.columns ex_page3)
       = 7 / 10"
proof -
  have code: "TableBuffer_can_merge_tables ascii ex_page2 ex_page3"
    by code_simp
  have sim: "compare_headers ascii (TableBlock.columns ex_page2) (TableBlock.columns ex_page3) = 7 / 10"
    by code_simp
  have ne: "TableBlock.columns ex_page2 \<noteq> []"
    by (simp add: ex_page2_def)
  from code merge_test_iff [of ascii ex_page2 ex_page3]
  have "can_merge (trimmed_lower ascii) ex_page2 ex_page3"
    by blast
  with code sim ne show ?thesis
    by (simp add: compare_headers_similarity)
qed

text \<open>
  C1, as the specification states it: the header comparison would be insensitive to
  whitespace. The headers \<open>"Unit Price"\<close> and \<open>"Unit  Price"\<close> are equal up to case and
  whitespace, so on pages 2 and 3, with one column at the same x-coordinate, all four
  conditions as stated hold; the code compares the headers stripped at their ends only,
  finds similarity 0 and refuses the merge, in both copies of the test.
\<close>

theorem merge_test_whitespace_counterexample:
  "can_merge (squeezed_lower ascii) ex_price2 ex_price3
   \<and> \<not> TableBuffer_can_merge_tables ascii ex_price2 ex_price3
   \<and> \<not> is_table_continuation ascii ex_price2 ex_price3 1 10"
proof (intro conjI)
  have "squeezed_lower ascii ''Unit Price'' = squeezed_lower ascii ''Unit  Price''"
    by code_simp
  then have "header_similarity (squeezed_lower ascii) [''Unit Price''] [''Unit  Price''] = 1"
    by (simp add: header_similarity_one)
  then show "can_merge (squeezed_lower ascii) ex_price2 ex_price3"
    by (simp add: can_merge_def ex_price2_def ex_price3_def)
  show "\<not> TableBuffer_can_merge_tables ascii ex_price2 ex_price3"
    by code_simp
  show "\<not> is_table_continuation ascii ex_price2 ex_price3 1 10"
    by code_simp
qed

text \<open>
  C3. \<open>merge_tables_if_compatible\<close> orders its two arguments by \<open>page_start\<close> (the first
  argument is first when its \<open>page_start\<close> is smaller or equal) and returns the table whose
  rows are the first's followed by the second's, whose columns are the first's unless
  empty, whose page range is the least start and the greatest end, whose bounding box is the
  componentwise minimum and maximum, and whose x-coordinates are the first's unless empty.
\<close>

theorem merge_tables_if_compatible_fields:
  "(let first = (if page_start t1 \<le> page_start t2 then t1 else t2);
        second = (if page_start t1 \<le> page_start t2 then t2 else t1);
        m = merge_tables_if_compatible t1 t2
    in TableBlock.rows m = TableBlock.rows first @ TableBlock.rows second
     \<and> TableBlock.columns m =
         (if TableBlock.columns first = [] then TableBlock.columns second else TableBlock.columns first)
     \<and> page_start m = min (page_start t1) (page_start t2)
     \<and> page_end m = max (page_end t1) (page_end t2)
     \<and> bbox_x0 (bbox m) = min (bbox_x0 (bbox t1)) (bbox_x0 (bbox t2))
     \<and> bbox_y0 (bbox m) = min (bbox_y0 (bbox t1)) (bbox_y0 (bbox t2))
     \<and> bbox_x1 (bbox m) = max (bbox_x1 (bbox t1)) (bbox_x1 (bbox t2))
     \<and> bbox_y1 (bbox m) = max (bbox_y1 (bbox t1)) (bbox_y1 (bbox t2))
     \<and> x_coordinates m =
         (if x_coordinates first = [] then x_coordinates second else x_coordinates first))"
proof (cases "page_start t1 \<le> page_start t2")
  case True
  then show ?thesis
    by (simp add: merge_tables_if_compatible_def Let_def bbox_x0_def bbox_y0_def bbox_x1_def bbox_y1_def)
next
  case False
  then show ?thesis
    by (simp add: merge_tables_if_compatible_def Let_def bbox_x0_def bbox_y0_def bbox_x1_def bbox_y1_def
        min.commute max.commute)
qed

theorem merge_tables_if_compatible_fields_witness:
  "merge_tables_if_compatible ex_page3 ex_page2 =
     \<lparr>page_start = 2, page_end = 3,
      columns = TableBlock.columns ex_page2,
      rows = TableBlock.rows ex_page2 @ TableBlock.rows ex_page3,
      bbox = (10, 40, 505, 780),
      x_coordinates = x_coordinates ex_page2\<rparr>"
proof -
  have "\<not> page_start ex_page3 \<le> page_start ex_page2"
    by (simp add: ex_page2_def ex_page3_def)
  with merge_tables_if_compatible_fields [of ex_page3 ex_page2]
  have f: "TableBlock.rows (merge_tables_if_compatible ex_page3 ex_page2)
             = TableBlock.rows ex_page2 @ TableBlock.rows ex_page3"
    and "TableBlock.columns (merge_tables_if_compatible ex_page3 ex_page2) = TableBlock.columns ex_page2"
    and "page_start (merge_tables_if_compatible ex_page3 ex_page2) = 2"
    and "page_end (merge_tables_if_compatible ex_page3 ex_page2) = 3"
    and "bbox_x0 (bbox (merge_tables_if_compatible ex_page3 ex_page2)) = 10"
    and "bbox_y0 (bbox (merge_tables_if_compatible ex_page3 ex_page2)) = 40"
    and "bbox_x1 (bbox (merge_tables_if_compatible ex_page3 ex_page2)) = 505"
    and "bbox_y1 (bbox (merge_tables_if_compatible ex_page3 ex_page2)) = 780"
    and "x_coordinates (merge_tables_if_compatible ex_page3 ex_page2) = x_coordinates ex_page2"
    by (simp_all add: Let_def ex_page2_def ex_page3_def bbox_x0_def bbox_y0_def bbox_x1_def bbox_y1_def)
  then show ?thesis
    by (cases "merge_tables_if_compatible ex_page3 ex_page2")
       (auto simp: bbox_x0_def bbox_y0_def bbox_x1_def bbox_y1_def)
qed

section \<open>Claims about the column clustering\<close>

text \<open>
  C9, as the code has it. \<open>get_column_positions\<close> sorts the left edges before it clusters
  them, so its result does not depend on the order of the input: two lists of boxes that
  are permutations of each other give the same columns. The representative of a cluster is
  the first left edge seen in ascending order, that is the smallest one, not a centroid:
  left edges 0, 4 and 8 with tolerance 10 give the single column 0.
\<close>

theorem get_column_positions_order_insensitive:
  "(mset bs = mset bs' \<longrightarrow> get_column_positions bs tol = get_column_positions bs' tol)
   \<and> get_column_positions [(8, 0, 9, 1), (0, 0, 1, 1), (4, 0, 5, 1)] 10 = [0]"
proof
  show "mset bs = mset bs' \<longrightarrow> get_column_positions bs tol = get_column_positions bs' tol"
    using get_column_positions_perm by blast
  show "get_column_positions [(8, 0, 9, 1), (0, 0, 1, 1), (4, 0, 5, 1)] 10 = [0]"
    by code_simp
qed

theorem get_column_positions_order_insensitive_witness:
  "get_column_positions [(30, 0, 40, 5), (12, 0, 20, 5), (0, 0, 5, 5)] 10
   = get_column_positions [(0, 0, 5, 5), (30, 0, 40, 5), (12, 0, 20, 5)] 10"
proof -
  have "mset [(30, 0, 40, 5), (12, 0, 20, 5), (0::rat, 0::rat, 5::rat, 5::rat)]
      = mset [(0, 0, 5, 5), (30, 0, 40, 5), (12, 0, 20, 5)]"
    by simp
  with get_column_positions_order_insensitive
    [of "[(30, 0, 40, 5), (12, 0, 20, 5), (0, 0, 5, 5)]"
        "[(0, 0, 5, 5), (30, 0, 40, 5), (12, 0, 20, 5)]" 10]
  show ?thesis by blast
qed

text \<open>
  C9, as the specification states it: there would be two input lists, permutations of each
  other, with different results. There are none.
\<close>

theorem get_column_positions_order_counterexample:
  "\<not> (\<exists>bs bs' tol. mset bs = mset bs'
         \<and> get_column_positions bs tol \<noteq> get_column_positions bs' tol)"
  using get_column_positions_perm by blast

text \<open>
  C10. For a tolerance that is not negative, \<open>get_column_positions\<close> returns a strictly
  increasing list, each element of which is the left edge of an input box, and any two
  distinct elements of which lie further apart than the tolerance.
\<close>

theorem get_column_positions_sound:
  assumes "0 \<le> tol"
  shows "sorted_wrt (<) (get_column_positions bs tol)
       \<and> set (get_column_positions bs tol) \<subseteq> bbox_x0 ` set bs
       \<and> (\<forall>x \<in> set (get_column_positions bs tol). \<forall>y \<in> set (get_column_positions bs tol).
            x \<noteq> y \<longrightarrow> tol < \<bar>x - y\<bar>)"
proof -
  let ?r = "get_column_positions bs tol"
  have r: "?r = group_coords tol [] (sort (map bbox_x0 bs))"
    using assms by (rule get_column_positions_unsorted)
  have sp: "sorted_wrt (\<lambda>a b. a + tol < b) ?r"
    unfolding r by (rule group_coords_spaced) simp_all
  have 1: "sorted_wrt (<) ?r" using assms sp by (rule spaced_strict)
  have 2: "set ?r \<subseteq> bbox_x0 ` set bs"
    unfolding r using set_group_coords [of tol "[]" "sort (map bbox_x0 bs)"] by simp
  have 3: "tol < \<bar>x - y\<bar>" if "x \<in> set ?r" "y \<in> set ?r" "x \<noteq> y" for x y
  proof -
    from that(1) obtain i where i: "i < length ?r" "x = ?r ! i"
      by (auto simp: in_set_conv_nth)
    from that(2) obtain j where j: "j < length ?r" "y = ?r ! j"
      by (auto simp: in_set_conv_nth)
    note ij = i j
    from that(3) ij have "i \<noteq> j" by auto
    then consider "i < j" | "j < i" by linarith
    then show ?thesis
    proof cases
      case 1
      then have "?r ! i + tol < ?r ! j" using sp ij by (simp add: sorted_wrt_iff_nth_less)
      then show ?thesis using ij by linarith
    next
      case 2
      then have "?r ! j + tol < ?r ! i" using sp ij by (simp add: sorted_wrt_iff_nth_less)
      then show ?thesis using ij by linarith
    qed
  qed
  from 1 2 3 show ?thesis by blast
qed

theorem get_column_positions_sound_witness:
  "get_column_positions [(12, 0, 20, 5), (0, 0, 5, 5), (30, 0, 40, 5), (8, 0, 9, 5)] 10 = [0, 12, 30]
   \<and> sorted_wrt (<) (get_column_positions [(12, 0, 20, 5), (0, 0, 5, 5), (30, 0, 40, 5), (8, 0, 9, 5)] 10)
   \<and> set (get_column_positions [(12, 0, 20, 5), (0, 0, 5, 5), (30, 0, 40, 5), (8, 0, 9, 5)] 10)
       \<subseteq> bbox_x0 ` set [(12, 0, 20, 5), (0, 0, 5, 5), (30, 0, 40, 5), (8, 0, 9, 5)]"
proof -
  have v: "get_column_positions [(12, 0, 20, 5), (0, 0, 5, 5), (30, 0, 40, 5), (8, 0, 9, 5)] 10 = [0, 12, 30]"
    by code_simp
  have "(0::rat) \<le> 10" by simp
  from get_column_positions_sound [OF this, of "[(12, 0, 20, 5), (0, 0, 5, 5), (30, 0, 40, 5), (8, 0, 9, 5)]"] v
  show ?thesis by simp
qed

section \<open>Claims about the page classifier\<close>

text \<open>
  C4, at an input where the code leaves the claim. \<open>detect_table_structure\<close> counts, for
  each 10-unit bin, the runs that fall into it, not the lines in which it occurs. On the
  page of three lines above, the three runs of the first line share the bin 70 and the
  three runs of the second line share the bin 200 (the bins of the runs, line by line, are
  70, 70, 70; 200, 200, 200; 300, 400): a table is reported although no bin has a run in
  more than one line, so no bin recurs in 3 lines.
\<close>

theorem detect_table_structure_counts_runs:
  "detect_table_structure ex_page
   \<and> map (\<lambda>line. map (\<lambda>(x_pos, text). round_to_tens x_pos) (info_spans line)) (collect_lines ex_page)
       = [[70, 70, 70], [200, 200, 200], [300, 400]]
   \<and> \<not> (\<exists>b1 b2. b1 \<noteq> b2 \<and> 3 \<le> lines_in_bin ex_page b1 \<and> 3 \<le> lines_in_bin ex_page b2)"
proof (intro conjI)
  show "detect_table_structure ex_page" by code_simp
  show "map (\<lambda>line. map (\<lambda>(x_pos, text). round_to_tens x_pos) (info_spans line)) (collect_lines ex_page)
       = [[70, 70, 70], [200, 200, 200], [300, 400]]"
    by (rule ex_page_lines)
  have one: "lines_in_bin ex_page b \<le> 1" for b
  proof -
    have "lines_in_bin ex_page b
        = length (filter (\<lambda>bs. b \<in> set bs)
            (map (\<lambda>line. map (\<lambda>(x_pos, text). round_to_tens x_pos) (info_spans line)) (collect_lines ex_page)))"
      by (simp add: lines_in_bin_def length_filter_map comp_def)
    then show ?thesis unfolding ex_page_lines by auto
  qed
  have "\<not> 3 \<le> lines_in_bin ex_page b" for b
    using one [of b] by linarith
  then show "\<not> (\<exists>b1 b2. b1 \<noteq> b2 \<and> 3 \<le> lines_in_bin ex_page b1 \<and> 3 \<le> lines_in_bin ex_page b2)"
    by blast
qed

text \<open>
  C5. \<open>determine_if_scan\<close> is true exactly when the character count is below 10, or the
  text density is below 0.05 and there is an image, or the text density is below 0.1 and the
  fraction of characters of the raw text that are neither alphanumeric nor a space exceeds
  0.3 (written without the division: 3 times the length is less than 10 times their number;
  for the empty text the fraction is 0). In particular a character count below 10 gives true
  whatever the other signals are.
\<close>

theorem determine_if_scan_iff:
  "(determine_if_scan u char_count text_density image_count drawing_paths raw_text \<longleftrightarrow>
       char_count < 10
     \<or> (text_density < 5 / 100 \<and> 0 < image_count)
     \<or> (text_density < 1 / 10
        \<and> 3 * length raw_text
            < 10 * length (filter (\<lambda>c. \<not> isalnum u c \<and> c \<noteq> blank u) raw_text)))
   \<and> (char_count < 10 \<longrightarrow>
        determine_if_scan u char_count text_density image_count drawing_paths raw_text)"
proof -
  have "length (filter (\<lambda>c. \<not> isalnum u c \<and> c \<noteq> blank u) raw_text) \<le> length raw_text"
    by simp
  from special_ratio_gt [OF this] show ?thesis
    unfolding determine_if_scan_def Let_def by auto
qed

theorem determine_if_scan_iff_witness:
  "determine_if_scan ascii 3 1 0 ([] :: unit list) ''abc''
   \<and> determine_if_scan ascii 120 (8 / 100) 0 ([] :: unit list) ''#@!%&*()=+ ab cd''
   \<and> \<not> determine_if_scan ascii 120 (8 / 100) 0 ([] :: unit list) ''plain text, no scan''"
proof -
  have a: "(3::int) < 10" by simp
  have b: "3 * length ''#@!%&*()=+ ab cd''
      < 10 * length (filter (\<lambda>c. \<not> isalnum ascii c \<and> c \<noteq> blank ascii) ''#@!%&*()=+ ab cd'')"
    by code_simp
  have c: "\<not> 3 * length ''plain text, no scan''
      < 10 * length (filter (\<lambda>c. \<not> isalnum ascii c \<and> c \<noteq> blank ascii) ''plain text, no scan'')"
    by code_simp
  show ?thesis
    using determine_if_scan_iff [of ascii 3 1 0 "[] :: unit list" "''abc''"]
      determine_if_scan_iff [of ascii 120 "8 / 100" 0 "[] :: unit list" "''#@!%&*()=+ ab cd''"]
      determine_if_scan_iff [of ascii 120 "8 / 100" 0 "[] :: unit list" "''plain text, no scan''"]
      a b c
    by simp
qed

section \<open>Claims about the table detector and the normalizer\<close>

text \<open>
  C6, at the inputs where the code leaves the claim. \<open>lines_align_as_table\<close> compares the
  number of aligned pairs with \<open>min_matches // 2\<close>, half the shorter length rounded down.
  Two rows of three runs of which one pair only is within 5 units are accepted (1 of 3), and
  so are two lines of a single run each whose left edges are 100 units apart (0 of 1).
\<close>

theorem lines_align_as_table_floor_half:
  "lines_align_as_table ex_row_a ex_row_b 5
   \<and> length (filter (\<lambda>i. \<bar>bbox_x0 (span_bbox (spans ex_row_a ! i))
                            - bbox_x0 (span_bbox (spans ex_row_b ! i))\<bar> \<le> 5) [0 ..< 3]) = 1
   \<and> lines_align_as_table ex_par_a ex_par_b 5
   \<and> \<bar>bbox_x0 (span_bbox (spans ex_par_a ! 0)) - bbox_x0 (span_bbox (spans ex_par_b ! 0))\<bar> = 100"
  by code_simp

text \<open>
  C7, at an input where the code leaves the claim. \<open>normalize_table\<close> strips the cells and
  drops the blank row, and returns the headers as they are: the header \<open>" Name "\<close> keeps its
  surrounding whitespace. The headers of every table are passed through, whatever the
  whitespace characters are.
\<close>

theorem normalize_table_keeps_headers:
  "normalize_table ascii ex_merged =
     \<lparr>original_tables = [0], columns = ['' Name '', ''City''],
      rows = [[''Ann'', ''Ufa'']], page_range = (1, 1)\<rparr>
   \<and> map (str_strip ascii) (MergedTable.columns ex_merged) = [''Name'', ''City'']
   \<and> MergedTable.columns (normalize_table u t) = MergedTable.columns t"
proof (intro conjI)
  show "normalize_table ascii ex_merged =
     \<lparr>original_tables = [0], columns = ['' Name '', ''City''],
      rows = [[''Ann'', ''Ufa'']], page_range = (1, 1)\<rparr>"
    by code_simp
  show "map (str_strip ascii) (MergedTable.columns ex_merged) = [''Name'', ''City'']"
    by code_simp
  show "MergedTable.columns (normalize_table u t) = MergedTable.columns t"
    by (simp add: normalize_table_def)
qed

section \<open>Claims about the table buffer\<close>






end
